theory Spec2Isabelle
  imports Complex_Main "HOL-Library.AList" "HOL-Library.Log_Nat"
begin

section \<open>The kubelet configuration document\<close>

text \<open>
  \<^verbatim>\<open>runsc/mitigate/kubeconfig.go\<close> keeps the parsed kubelet-config.yaml as a Go
  \<^verbatim>\<open>map[interface{}]interface{}\<close>. A value of type \<^verbatim>\<open>interface{}\<close>
  in that tree is a scalar, a sequence or a nested map of the same type. Map keys are
  comparable values, hence scalars. A Go map variable may be \<^verbatim>\<open>nil\<close>: reading a nil
  map finds no key, storing into it panics. The association list of a non-nil map is read
  with \<open>map_of\<close> and written with \<open>AList.update\<close>, which replaces the binding of the key
  where it stands or adds one.
\<close>

datatype scalar = SNull | SBool bool | SInt int | SFloat rat | SStr string

datatype yaml =
    Scalar scalar
  | Sequence "yaml list"
  | Mapping "(scalar \<times> yaml) list option"

type_synonym gomap = "(scalar \<times> yaml) list option"

record kubeconfig =
  config :: gomap

text \<open>
  The errors are the \<^verbatim>\<open>fmt.Errorf\<close> values of the source, one constructor per format
  string, carrying the values the message prints.
\<close>

datatype error =
    NotAMapOnField yaml string      \<comment> \<open>\<^verbatim>\<open>result %v is not a map on field %s\<close>\<close>
  | FieldDoesNotExist string gomap  \<comment> \<open>\<^verbatim>\<open>field %s does not exist: %+v\<close>\<close>
  | FailedToSetField error          \<comment> \<open>\<^verbatim>\<open>failed to set field: %v\<close>\<close>
  | FieldNotInResult string yaml    \<comment> \<open>\<^verbatim>\<open>field %s not in result: %+v\<close>\<close>
  | FieldNotString yaml             \<comment> \<open>\<^verbatim>\<open>reservedCPU field not string: %v\<close>\<close>

text \<open>Run-time panics of the Go code are outcomes of their own, never error values.\<close>

datatype panic =
    SliceBoundsOutOfRange
  | AssignmentToNilMap
  | MakeSliceLenOutOfRange
  | IndexOutOfRange

datatype 'a outcome = Panic panic | Return 'a

definition kubeconfigSuffix :: string where
  "kubeconfigSuffix = ''KUBE_SCHEDULER_CONFIG'' @ [CHR 0x0A]"

definition kubeReservedField :: string where
  "kubeReservedField = ''kubeReserved''"

definition cpuField :: string where
  "cpuField = ''cpu''"

definition gkeCustomReservedCPU :: string where
  "gkeCustomReservedCPU = ''1060m''"

section \<open>Path access\<close>

text \<open>
  \<^verbatim>\<open>getSubfield\<close> walks the tree by the fields of the path. The loop body, started at
  the node \<open>result\<close>: the node must be a map; the field is looked up in it; a missing
  field is an error when \<open>get\<close> is set and is otherwise bound to a fresh empty map, in
  place. Go maps are references, and the document decoded from a file is a tree: no map
  is reached by two paths. The mutation of a nested map is therefore a change of the
  tree at the path walked, visible from the root: \<open>walk\<close> returns the node as the loop
  leaves it together with what the loop returns.
\<close>

fun walk :: "yaml \<Rightarrow> string list \<Rightarrow> bool \<Rightarrow> yaml \<times> (error + yaml) outcome" where
  "walk result [] get = (result, Return (Inr result))"
| "walk (Mapping None) (field # flds) get =
     (if get then (Mapping None, Return (Inl (FieldDoesNotExist field None)))
      else (Mapping None, Panic AssignmentToNilMap))"
| "walk (Mapping (Some r)) (field # flds) get =
     (case map_of r (SStr field) of
        Some child \<Rightarrow>
          (case walk child flds get of
             (child', out) \<Rightarrow> (Mapping (Some (AList.update (SStr field) child' r)), out))
      | None \<Rightarrow>
          if get then (Mapping (Some r), Return (Inl (FieldDoesNotExist field (Some r))))
          else
            (case walk (Mapping (Some [])) flds get of
               (child', out) \<Rightarrow> (Mapping (Some (AList.update (SStr field) child' r)), out)))"
| "walk (Scalar s) (field # flds) get =
     (Scalar s, Return (Inl (NotAMapOnField (Scalar s) field)))"
| "walk (Sequence xs) (field # flds) get =
     (Sequence xs, Return (Inl (NotAMapOnField (Sequence xs) field)))"

text \<open>The root of the walk is \<^verbatim>\<open>interface{}(k.config)\<close>, a map.\<close>

definition setRoot :: "kubeconfig \<Rightarrow> yaml \<Rightarrow> kubeconfig" where
  "setRoot k n = (case n of Mapping m \<Rightarrow> k\<lparr>config := m\<rparr> | _ \<Rightarrow> k)"

definition getSubfield ::
  "kubeconfig \<Rightarrow> string list \<Rightarrow> bool \<Rightarrow> kubeconfig \<times> (error + yaml) outcome" where
  "getSubfield k flds get =
     (case walk (Mapping (config k)) flds get of
        (root', out) \<Rightarrow> (setRoot k root', out))"

text \<open>
  \<^verbatim>\<open>r[field] = value\<close> in \<^verbatim>\<open>setField\<close> stores into the map that
  \<^verbatim>\<open>getSubfield\<close> returned, which is the node of the tree at the path walked.
  \<open>storeAt\<close> is that store, addressed by the path.
\<close>

fun storeAt :: "yaml \<Rightarrow> string list \<Rightarrow> scalar \<Rightarrow> yaml \<Rightarrow> yaml" where
  "storeAt (Mapping (Some r)) [] key v = Mapping (Some (AList.update key v r))"
| "storeAt (Mapping (Some r)) (field # flds) key v =
     (case map_of r (SStr field) of
        Some child \<Rightarrow> Mapping (Some (AList.update (SStr field) (storeAt child flds key v) r))
      | None \<Rightarrow> Mapping (Some r))"
| "storeAt n flds key v = n"

definition setField ::
  "kubeconfig \<Rightarrow> string list \<Rightarrow> string \<Rightarrow> kubeconfig \<times> error option outcome" where
  "setField k flds val =
     (if flds = [] then (k, Panic SliceBoundsOutOfRange)
      else
        (case getSubfield k (butlast flds) False of
           (k', Panic p) \<Rightarrow> (k', Panic p)
         | (k', Return (Inl err)) \<Rightarrow> (k', Return (Some (FailedToSetField err)))
         | (k', Return (Inr (Mapping None))) \<Rightarrow> (k', Panic AssignmentToNilMap)
         | (k', Return (Inr (Mapping (Some r)))) \<Rightarrow>
             (setRoot k' (storeAt (Mapping (config k')) (butlast flds)
                            (SStr (last flds)) (Scalar (SStr val))),
              Return None)
         | (k', Return (Inr result)) \<Rightarrow>
             (k', Return (Some (FieldNotInResult (last flds) result)))))"

definition getFieldAsString ::
  "kubeconfig \<Rightarrow> string list \<Rightarrow> kubeconfig \<times> (error + string) outcome" where
  "getFieldAsString k flds =
     (case getSubfield k flds True of
        (k', Panic p) \<Rightarrow> (k', Panic p)
      | (k', Return (Inl err)) \<Rightarrow> (k', Return (Inl err))
      | (k', Return (Inr (Scalar (SStr ret)))) \<Rightarrow> (k', Return (Inr ret))
      | (k', Return (Inr v)) \<Rightarrow> (k', Return (Inl (FieldNotString v))))"

definition setReservedCPU :: "kubeconfig \<Rightarrow> string \<Rightarrow> kubeconfig \<times> error option outcome" where
  "setReservedCPU k reserved = setField k [kubeReservedField, cpuField] reserved"

definition getReservedCPU :: "kubeconfig \<Rightarrow> kubeconfig \<times> (error + string) outcome" where
  "getReservedCPU k = getFieldAsString k [kubeReservedField, cpuField]"

section \<open>The reserved CPU value\<close>

text \<open>
  \<^verbatim>\<open>computeReservedCPU\<close> computes in \<^verbatim>\<open>float64\<close>. A \<^verbatim>\<open>float64\<close> is
  modelled by the rational it stands for, and an operation by the exact operation
  followed by \<open>float64\<close>, the rounding to the nearest number with a significand of 53
  bits, ties to the even significand. The exponent range is not modelled: the values
  formed here lie between \<open>2^-9\<close> and \<open>2^52\<close>. \<open>binade x\<close> is the exponent \<open>e\<close> with
  \<open>2^e \<le> x < 2^(e+1)\<close>.
\<close>

definition roundHalfEven :: "rat \<Rightarrow> int" where
  "roundHalfEven x =
     (let f = \<lfloor>x\<rfloor>; d = x - of_int f
      in if d < 1 / 2 \<or> (d = 1 / 2 \<and> even f) then f else f + 1)"

definition binade :: "rat \<Rightarrow> int" where
  "binade x = (if 1 \<le> x then bitlen \<lfloor>x\<rfloor> - 1 else - bitlen (\<lceil>1 / x\<rceil> - 1))"

definition float64 :: "rat \<Rightarrow> rat" where
  "float64 x =
     (if x = 0 then 0
      else let u = 2 powi (binade \<bar>x\<bar> - 52)
           in sgn x * of_int (roundHalfEven (\<bar>x\<bar> / u)) * u)"

text \<open>
  The literals \<^verbatim>\<open>0.06\<close>, \<^verbatim>\<open>0.01\<close>, \<^verbatim>\<open>0.005\<close> and \<^verbatim>\<open>0.0025\<close> are the
  \<^verbatim>\<open>float64\<close> nearest to the decimals, and \<^verbatim>\<open>1000 * p.percentage\<close> is a rounded
  product. The sum \<^verbatim>\<open>milliCPUs += total\<close> is taken exactly: every value summed is a
  multiple of one half, and the rounded sum of a slice of up to \<open>2^45\<close> elements, which
  is \<open>2^48\<close> bytes, is the exact one (lemma \<open>aggregate64_exact\<close> below). The count
  \<^verbatim>\<open>cpus\<close> is an \<^verbatim>\<open>int64\<close>; the loop counter stays below it, so no integer
  operation wraps, and the model counts in \<open>int\<close>.
\<close>

record cpuRange =
  percentage :: rat  \<comment> \<open>Percentage of CPU for this range.\<close>
  minCPU :: int      \<comment> \<open>Minimum CPU for this percentage.\<close>
  maxCPU :: int      \<comment> \<open>Maximum CPU for this percentage.\<close>

definition cpuRanges :: "int \<Rightarrow> cpuRange list" where
  "cpuRanges cpus =
     [\<lparr>percentage = float64 (6 / 100), minCPU = 0, maxCPU = 1\<rparr>,
      \<lparr>percentage = float64 (1 / 100), minCPU = 1, maxCPU = 2\<rparr>,
      \<lparr>percentage = float64 (5 / 1000), minCPU = 2, maxCPU = 4\<rparr>,
      \<lparr>percentage = float64 (25 / 10000), minCPU = 4, maxCPU = cpus\<rparr>]"

text \<open>
  \<^verbatim>\<open>make([]float64, cpus)\<close>: a negative length panics, otherwise the slice is
  zeroed. Memory is taken to be unbounded: a length beyond what the runtime can allocate
  is not modelled.
\<close>

definition makeFloats :: "int \<Rightarrow> rat list outcome" where
  "makeFloats n = (if n < 0 then Panic MakeSliceLenOutOfRange else Return (replicate (nat n) 0))"

text \<open>
  The inner loop \<^verbatim>\<open>for i := p.minCPU; i < cpus && i < p.maxCPU; i++\<close>, from the
  counter \<open>i\<close>. The store \<^verbatim>\<open>totals[i] = ...\<close> panics outside the slice.
\<close>

function fillRange :: "cpuRange \<Rightarrow> int \<Rightarrow> int \<Rightarrow> rat list \<Rightarrow> rat list outcome" where
  "fillRange p cpus i totals =
     (if i < cpus \<and> i < maxCPU p then
        (if 0 \<le> i \<and> i < int (length totals)
         then fillRange p cpus (i + 1) (totals[nat i := float64 (1000 * percentage p)])
         else Panic IndexOutOfRange)
      else Return totals)"
  by pat_completeness auto
termination
  by (relation "measure (\<lambda>(p, cpus, i, totals). nat (cpus - i))") auto

declare fillRange.simps [simp del]

text \<open>The outer loop over the ranges.\<close>

fun fillRanges :: "cpuRange list \<Rightarrow> int \<Rightarrow> rat list \<Rightarrow> rat list outcome" where
  "fillRanges [] cpus totals = Return totals"
| "fillRanges (p # ps) cpus totals =
     (case fillRange p cpus (minCPU p) totals of
        Panic e \<Rightarrow> Panic e
      | Return totals' \<Rightarrow> fillRanges ps cpus totals')"

text \<open>\<^verbatim>\<open>milliCPUs := 0.0; for _, total := range totals { milliCPUs += total }\<close>\<close>

definition aggregate :: "rat list \<Rightarrow> rat" where
  "aggregate totals = foldl (+) 0 totals"

text \<open>The same loop with the rounded sum.\<close>

definition aggregate64 :: "rat list \<Rightarrow> rat" where
  "aggregate64 totals = foldl (\<lambda>milliCPUs total. float64 (milliCPUs + total)) 0 totals"

text \<open>The conversion \<^verbatim>\<open>int64(milliCPUs)\<close> drops the fraction, towards zero.\<close>

definition toInt64 :: "rat \<Rightarrow> int" where
  "toInt64 x = (if 0 \<le> x then \<lfloor>x\<rfloor> else \<lceil>x\<rceil>)"

text \<open>\<^verbatim>\<open>fmt.Sprintf("%dm", n)\<close>: the decimal digits of \<open>n\<close>, signed, then the unit.\<close>

definition digitChar :: "nat \<Rightarrow> char" where
  "digitChar d = ''0123456789'' ! d"

fun natDigits :: "nat \<Rightarrow> string" where
  "natDigits n =
     (if n < 10 then [digitChar n] else natDigits (n div 10) @ [digitChar (n mod 10)])"

declare natDigits.simps [simp del]

definition sprintfMilli :: "int \<Rightarrow> string" where
  "sprintfMilli n = (if n < 0 then CHR ''-'' # natDigits (nat (- n)) else natDigits (nat n)) @ ''m''"

text \<open>The general computation, from the allocation of \<^verbatim>\<open>totals\<close> to the return.\<close>

definition gkeReservedCPU :: "int \<Rightarrow> (error + string) outcome" where
  "gkeReservedCPU cpus =
     (case makeFloats cpus of
        Panic e \<Rightarrow> Panic e
      | Return totals \<Rightarrow>
          (case fillRanges (cpuRanges cpus) cpus totals of
             Panic e \<Rightarrow> Panic e
           | Return totals' \<Rightarrow> Return (Inr (sprintfMilli (toInt64 (aggregate totals'))))))"

definition computeReservedCPU ::
  "kubeconfig \<Rightarrow> int \<Rightarrow> kubeconfig \<times> (error + string) outcome" where
  "computeReservedCPU k cpus =
     (if cpus \<le> 2 then
        (case getReservedCPU k of
           (k', Panic e) \<Rightarrow> (k', Panic e)
         | (k', Return (Inl err)) \<Rightarrow> (k', Return (Inl err))
         | (k', Return (Inr val)) \<Rightarrow>
             if val = gkeCustomReservedCPU then (k', Return (Inr val))
             else (k', gkeReservedCPU cpus))
      else (k, gkeReservedCPU cpus))"

section \<open>Reading and writing the file\<close>

text \<open>
  \<^verbatim>\<open>getKubeconfig\<close> and \<^verbatim>\<open>unpack\<close> wrap \<^verbatim>\<open>yaml.Unmarshal\<close> and
  \<^verbatim>\<open>yaml.Marshal\<close> of the package \<^verbatim>\<open>gopkg.in/yaml.v2\<close>, which this
  repository imports and does not contain. Both are parameters here: \<open>unmarshal\<close> takes
  the bytes and the map it decodes into and returns the map and the error, \<open>marshal\<close>
  returns the bytes and the error.
\<close>

definition trimSuffix :: "string \<Rightarrow> string \<Rightarrow> string" where
  "trimSuffix s suffix =
     (if length suffix \<le> length s \<and> drop (length s - length suffix) s = suffix
      then take (length s - length suffix) s else s)"

definition getKubeconfig ::
  "(string \<Rightarrow> gomap \<Rightarrow> gomap \<times> 'e option) \<Rightarrow> string \<Rightarrow> kubeconfig \<times> 'e option" where
  "getKubeconfig unmarshal data =
     (case unmarshal (trimSuffix data kubeconfigSuffix) (Some []) of
        (m, err) \<Rightarrow> (\<lparr>config = m\<rparr>, err))"

definition unpack :: "(gomap \<Rightarrow> string \<times> 'e option) \<Rightarrow> kubeconfig \<Rightarrow> string \<times> 'e option" where
  "unpack marshal k = (case marshal (config k) of (ret, err) \<Rightarrow> (ret @ kubeconfigSuffix, err))"

section \<open>The specification's terms\<close>

text \<open>
  The specification's formula for the reserved milli-CPUs of \<open>cpuCount\<close> cores: 60 for
  the first core, 10 for the second, 5 for each core index in \<open>[2,4)\<close> and 2.5 for each
  core index from 4 on, over the indices in \<open>[0, cpuCount)\<close>.
\<close>

definition reservedMilliSpec :: "int \<Rightarrow> rat" where
  "reservedMilliSpec cpuCount =
     (if 1 \<le> cpuCount then 60 else 0) + (if 2 \<le> cpuCount then 10 else 0)
     + 5 * of_nat (card ({2..<4} \<inter> {0..<cpuCount}))
     + 5 / 2 * of_nat (card {4..<cpuCount})"

text \<open>What the slice \<^verbatim>\<open>totals\<close> holds at index \<open>j\<close> once the ranges are filled.\<close>

definition perCore :: "nat \<Rightarrow> rat" where
  "perCore j = (if j < 1 then 60 else if j < 2 then 10 else if j < 4 then 5 else 5 / 2)"

text \<open>
  The specification sorts the errors into kinds. A PathError is a path that does not
  resolve or that runs through a node that is not a mapping; a resolved value that is
  not a string is a TypeError.
\<close>

fun isPathError :: "error \<Rightarrow> bool" where
  "isPathError (NotAMapOnField n field) = True"
| "isPathError (FieldDoesNotExist field r) = True"
| "isPathError (FailedToSetField err) = isPathError err"
| "isPathError (FieldNotInResult field n) = True"
| "isPathError (FieldNotString n) = False"

fun isMapping :: "yaml \<Rightarrow> bool" where
  "isMapping (Mapping m) = True"
| "isMapping n = False"

section \<open>The documents of the package's tests\<close>

text \<open>
  The trees of the YAML texts in the tests of the package: \<^verbatim>\<open>yamlTemplate\<close> of
  \<^verbatim>\<open>TestComputeCPUs\<close> with a given \<^verbatim>\<open>kubeReserved.cpu\<close>, its instances
  \<^verbatim>\<open>basicYAML\<close> and \<^verbatim>\<open>specialYAML\<close>, and the case \<^verbatim>\<open>notAMap\<close> of
  \<^verbatim>\<open>TestGetSetFields\<close>.
\<close>

definition yamlTemplate :: "string \<Rightarrow> kubeconfig" where
  "yamlTemplate cpu =
     \<lparr>config = Some
        [(SStr ''kubeReserved'', Mapping (Some
           [(SStr ''cpu'', Scalar (SStr cpu)),
            (SStr ''ephemeral-storage'', Scalar (SStr ''41Gi'')),
            (SStr ''memory'', Scalar (SStr ''1019Mi''))]))]\<rparr>"

definition basicYAML :: kubeconfig where
  "basicYAML = yamlTemplate ''0m''"

definition specialYAML :: kubeconfig where
  "specialYAML = yamlTemplate gkeCustomReservedCPU"

definition notAMap :: kubeconfig where
  "notAMap = \<lparr>config = Some [(SStr ''kubeReserved'', Scalar (SStr ''NotAMap''))]\<rparr>"

definition emptyDocument :: kubeconfig where
  "emptyDocument = \<lparr>config = Some []\<rparr>"

section \<open>The walk\<close>

lemma walk_get_fst: "fst (walk n fs True) = n"
  by (induction n fs True rule: walk.induct)
     (auto split: option.splits prod.splits simp: AList.update_triv)

lemma walk_get_no_panic: "snd (walk n fs True) \<noteq> Panic e"
  by (induction n fs True rule: walk.induct)
     (auto split: option.splits prod.splits)

text \<open>In a fresh empty map every field is missing: the walk creates to the end.\<close>

lemma walk_fresh:
  "\<exists>n'. walk (Mapping (Some [])) fs False = (n', Return (Inr (Mapping (Some []))))"
  by (induction fs) (auto split: prod.splits)

text \<open>
  A walk that does not return a map has created nothing: the mismatch, the missing
  field and the nil map are all met before the first creation, and after a creation
  the walk is in a fresh map and returns a map.
\<close>

lemma walk_unchanged:
  "walk n fs get = (n', out) \<Longrightarrow> \<forall>m. out \<noteq> Return (Inr (Mapping m)) \<Longrightarrow> n' = n"
proof (induction n fs get arbitrary: n' out rule: walk.induct)
  case (3 r field flds get)
  show ?case
  proof (cases "map_of r (SStr field)")
    case None
    show ?thesis
    proof (cases get)
      case True
      with None "3.prems" show ?thesis by simp
    next
      case False
      obtain c where "walk (Mapping (Some [])) flds False = (c, Return (Inr (Mapping (Some []))))"
        using walk_fresh by blast
      with None False "3.prems" show ?thesis by auto
    qed
  next
    case (Some child)
    obtain c o' where w: "walk child flds get = (c, o')" by (cases "walk child flds get")
    with Some "3.prems" have "o' = out" and n': "n' = Mapping (Some (AList.update (SStr field) c r))"
      by auto
    with "3.IH"(2) [OF Some w] "3.prems"(2) have "c = child" by simp
    with n' Some show ?thesis by (simp add: AList.update_triv)
  qed
qed (auto split: if_splits)

lemma walk_Mapping: "\<exists>m'. fst (walk (Mapping m) fs get) = Mapping m'"
  by (cases m; cases fs) (auto split: option.splits prod.splits)



text \<open>
  A path that resolves to a node that is not a map cannot be walked any further, in
  either mode, and the walk up to that node creates nothing.
\<close>

lemma walk_through_scalar:
  "walk n pre True = (n0, Return (Inr x)) \<Longrightarrow> \<not> isMapping x \<Longrightarrow>
   walk n (pre @ rest) get
     = (n, if rest = [] then Return (Inr x) else Return (Inl (NotAMapOnField x (hd rest))))"
proof (induction n pre "True" arbitrary: n0 rule: walk.induct)
  case (1 result)
  then show ?case by (cases result; cases rest) auto
next
  case (3 r field flds)
  then obtain child where child: "map_of r (SStr field) = Some child"
    by (cases "map_of r (SStr field)") auto
  obtain c o' where w: "walk child flds True = (c, o')" by (cases "walk child flds True")
  with child "3.prems" have o': "o' = Return (Inr x)" by auto
  from "3.hyps"(2) [OF child w [unfolded o'] "3.prems"(2)]
  have "walk child (flds @ rest) get
     = (child, if rest = [] then Return (Inr x) else Return (Inl (NotAMapOnField x (hd rest))))"
    .
  with child show ?case by (simp add: AList.update_triv)
qed auto

section \<open>The arithmetic of \<^verbatim>\<open>float64\<close>\<close>

text \<open>The four products are exact: 60, 10, 5 and 2.5 milli-CPUs.\<close>

lemma float64_products:
  "float64 (1000 * float64 (6 / 100)) = 60"
  "float64 (1000 * float64 (1 / 100)) = 10"
  "float64 (1000 * float64 (5 / 1000)) = 5"
  "float64 (1000 * float64 (25 / 10000)) = 5 / 2"
  by code_simp+

lemma float64_products_reduced:
  "float64 (1000 * float64 (3 / 50)) = 60"
  "float64 (1000 * float64 (1 / 200)) = 5"
  "float64 (1000 * float64 (1 / 400)) = 5 / 2"
  by code_simp+

lemma roundHalfEven_of_int: "roundHalfEven (of_int z) = z"
  by (simp add: roundHalfEven_def)

lemma bitlen_le: "0 < m \<Longrightarrow> m < 2 ^ n \<Longrightarrow> bitlen m \<le> int n"
proof -
  assume m: "0 < m" "m < 2 ^ n"
  from bitlen_bounds [OF m(1)] have "(2::int) ^ nat (bitlen m - 1) \<le> m" by simp
  with m(2) have "(2::int) ^ nat (bitlen m - 1) < 2 ^ n" by linarith
  then have "nat (bitlen m - 1) < n" by simp
  then show ?thesis by linarith
qed

lemma binade_le:
  assumes "0 < x" "x < 2 ^ 52"
  shows "binade x \<le> 51"
proof (cases "1 \<le> x")
  case True
  then have "0 < \<lfloor>x\<rfloor>" by linarith
  moreover have "\<lfloor>x\<rfloor> < 2 ^ 52" using assms(2) by (simp add: floor_less_iff)
  ultimately have "bitlen \<lfloor>x\<rfloor> \<le> 52" using bitlen_le [of "\<lfloor>x\<rfloor>" 52] by simp
  with True show ?thesis by (simp add: binade_def)
next
  case False
  then show ?thesis using bitlen_nonneg [of "\<lceil>1 / x\<rceil> - 1"] by (simp add: binade_def)
qed

text \<open>A multiple of one half below \<open>2^52\<close> is a \<^verbatim>\<open>float64\<close>.\<close>

lemma float64_half_pos:
  assumes "0 < k" "k < 2 ^ 53"
  shows "float64 (of_int k / 2) = of_int k / 2"
proof -
  let ?x = "of_int k / 2 :: rat"
  have pos: "0 < ?x" using assms(1) by simp
  have "(of_int k :: rat) < of_int (2 ^ 53)" using assms(2) by (subst of_int_less_iff)
  then have "?x < 2 ^ 52" by simp
  with pos have e: "binade ?x \<le> 51" by (rule binade_le)
  define j where "j = nat (51 - binade ?x)"
  have u: "(2::rat) powi (binade ?x - 52) = 1 / 2 ^ (j + 1)"
  proof -
    have "binade ?x - 52 = - int (j + 1)" using e by (simp add: j_def)
    then show ?thesis by (simp only: power_int_minus power_int_of_nat inverse_eq_divide)
  qed
  have q: "?x / (1 / 2 ^ (j + 1)) = of_int (k * 2 ^ j)" by simp
  have nz: "?x \<noteq> 0" "\<bar>?x\<bar> = ?x" "sgn ?x = 1" using pos by simp_all
  have "float64 ?x = sgn ?x * of_int (roundHalfEven (\<bar>?x\<bar> / (2 powi (binade \<bar>?x\<bar> - 52))))
                      * (2 powi (binade \<bar>?x\<bar> - 52))"
    unfolding float64_def Let_def using nz(1) by (simp only: if_False)
  also have "\<dots> = of_int (roundHalfEven (?x / (1 / 2 ^ (j + 1)))) * (1 / 2 ^ (j + 1))"
    by (simp only: nz u mult_1)
  also have "\<dots> = of_int (k * 2 ^ j) * (1 / 2 ^ (j + 1))"
    by (simp only: q roundHalfEven_of_int)
  also have "\<dots> = ?x" by simp
  finally show ?thesis .
qed

lemma float64_half:
  assumes "0 \<le> k" "k < 2 ^ 53"
  shows "float64 (of_int k / 2) = of_int k / 2"
proof (cases "k = 0")
  case True
  then show ?thesis by (simp add: float64_def)
next
  case False
  with assms show ?thesis by (intro float64_half_pos) simp_all
qed

lemma foldl_float64_exact:
  assumes "\<forall>t \<in> set xs. \<exists>k. 0 \<le> k \<and> k \<le> 120 \<and> t = of_int k / 2"
    and "0 \<le> ka" and "ka + 120 * int (length xs) < 2 ^ 53"
  shows "foldl (\<lambda>s t. float64 (s + t)) (of_int ka / 2) xs = foldl (+) (of_int ka / 2) xs"
  using assms
proof (induction xs arbitrary: ka)
  case Nil
  then show ?case by simp
next
  case (Cons t xs)
  then obtain k where k: "0 \<le> k" "k \<le> 120" "t = of_int k / 2" by auto
  have sum: "of_int ka / 2 + t = (of_int (ka + k) / 2 :: rat)"
    using k(3) by (simp add: add_divide_distrib)
  have step: "float64 (of_int (ka + k) / 2) = of_int (ka + k) / 2"
    using k Cons.prems by (intro float64_half) simp_all
  have rest: "foldl (\<lambda>s t. float64 (s + t)) (of_int (ka + k) / 2) xs
      = foldl (+) (of_int (ka + k) / 2) xs"
    using Cons.prems k by (intro Cons.IH) simp_all
  show ?case by (simp only: foldl_Cons step rest sum)
qed

lemma perCore_half: "\<exists>k. 0 \<le> k \<and> k \<le> 120 \<and> perCore j = of_int k / 2"
proof -
  have "perCore j = of_int 120 / 2 \<or> perCore j = of_int 20 / 2 \<or> perCore j = of_int 10 / 2
    \<or> perCore j = of_int 5 / 2"
    by (simp add: perCore_def)
  then show ?thesis by (elim disjE) (intro exI conjI; assumption | simp)+
qed

text \<open>
  On the filled slice of up to \<open>2^45\<close> cores the rounded sum of the loop is the exact
  sum.
\<close>

lemma aggregate64_exact:
  assumes "n \<le> 2 ^ 45"
  shows "aggregate64 (map perCore [0..<n]) = aggregate (map perCore [0..<n])"
proof -
  have "120 * int n < 2 ^ 53" using assms by simp
  then have "foldl (\<lambda>s t. float64 (s + t)) (of_int 0 / 2) (map perCore [0..<n])
      = foldl (+) (of_int 0 / 2) (map perCore [0..<n])"
    using perCore_half by (intro foldl_float64_exact) auto
  then show ?thesis by (simp add: aggregate64_def aggregate_def)
qed

section \<open>The filled slice\<close>

lemma fillRange_Return:
  "0 \<le> i \<Longrightarrow> cpus \<le> int (length totals) \<Longrightarrow>
   fillRange p cpus i totals =
     Return (map (\<lambda>j. if i \<le> int j \<and> int j < cpus \<and> int j < maxCPU p
                        then float64 (1000 * percentage p) else totals ! j) [0..<length totals])"
proof (induction p cpus i totals rule: fillRange.induct)
  case (1 p cpus i totals)
  show ?case
  proof (cases "i < cpus \<and> i < maxCPU p")
    case False
    then have "fillRange p cpus i totals = Return totals"
      by (subst fillRange.simps) auto
    moreover have "map (\<lambda>j. if i \<le> int j \<and> int j < cpus \<and> int j < maxCPU p
                        then float64 (1000 * percentage p) else totals ! j) [0..<length totals] = totals"
      using False by (intro nth_equalityI) auto
    ultimately show ?thesis by simp
  next
    case True
    with "1.prems" have inb: "0 \<le> i \<and> i < int (length totals)" by simp
    let ?t = "totals[nat i := float64 (1000 * percentage p)]"
    have step: "fillRange p cpus i totals = fillRange p cpus (i + 1) ?t"
      using True inb by (subst fillRange.simps) simp
    have ih: "fillRange p cpus (i + 1) ?t =
      Return (map (\<lambda>j. if i + 1 \<le> int j \<and> int j < cpus \<and> int j < maxCPU p
                        then float64 (1000 * percentage p) else ?t ! j) [0..<length ?t])"
      using "1.IH" [OF True inb] "1.prems" by simp
    have "map (\<lambda>j. if i + 1 \<le> int j \<and> int j < cpus \<and> int j < maxCPU p
                        then float64 (1000 * percentage p) else ?t ! j) [0..<length ?t]
        = map (\<lambda>j. if i \<le> int j \<and> int j < cpus \<and> int j < maxCPU p
                        then float64 (1000 * percentage p) else totals ! j) [0..<length totals]"
      using True inb by (intro nth_equalityI) (auto simp: nth_list_update)
    with step ih show ?thesis by simp
  qed
qed

lemma foldl_plus_sum_list: "foldl (+) a xs = a + sum_list (xs :: rat list)"
  by (induction xs arbitrary: a) (simp_all add: add.assoc)

lemma aggregate_sum_list: "aggregate totals = sum_list totals"
  by (simp add: aggregate_def foldl_plus_sum_list)

lemma fillRanges_cpuRanges:
  "fillRanges (cpuRanges (int n)) (int n) (replicate n 0) = Return (map perCore [0..<n])"
  by (auto simp: cpuRanges_def fillRange_Return perCore_def float64_products
        float64_products_reduced)

lemma sum_list_perCore:
  "sum_list (map perCore [0..<n]) = reservedMilliSpec (int n)"
proof (cases "4 \<le> n")
  case True
  then have "[0..<n] = [0, 1, 2, 3] @ [4..<n]"
    by (intro nth_equalityI) (auto simp: nth_append nth_Cons')
  moreover have "map perCore [4..<n] = replicate (n - 4) (5 / 2)"
    by (intro nth_equalityI) (auto simp: perCore_def)
  ultimately have "sum_list (map perCore [0..<n]) = 80 + of_nat (n - 4) * (5 / 2)"
    by (simp add: perCore_def sum_list_replicate)
  also have "\<dots> = reservedMilliSpec (int n)"
    using True by (simp add: reservedMilliSpec_def)
  finally show ?thesis .
next
  case False
  then consider "n = 0" | "n = 1" | "n = 2" | "n = 3" by linarith
  then show ?thesis
    by cases (simp_all add: perCore_def reservedMilliSpec_def upt_rec numeral_eq_Suc)
qed

lemma gkeReservedCPU_formula:
  assumes "0 \<le> cpus"
  shows "gkeReservedCPU cpus = Return (Inr (sprintfMilli (toInt64 (reservedMilliSpec cpus))))"
proof -
  obtain n where n: "cpus = int n" using assms nonneg_int_cases by blast
  show ?thesis
    unfolding n gkeReservedCPU_def makeFloats_def
    by (simp add: fillRanges_cpuRanges aggregate_sum_list sum_list_perCore)
qed

section \<open>Reads\<close>

lemma setRoot_config: "setRoot k (Mapping (config k)) = k"
  by (simp add: setRoot_def)

lemma getSubfield_walk:
  assumes "walk (Mapping (config k)) flds get = (root', out)"
  shows "getSubfield k flds get = (setRoot k root', out)"
    and "Mapping (config (setRoot k root')) = root'"
proof -
  show "getSubfield k flds get = (setRoot k root', out)"
    using assms by (simp add: getSubfield_def)
  obtain m' where "root' = Mapping m'"
    using walk_Mapping [of "config k" flds get] assms by auto
  then show "Mapping (config (setRoot k root')) = root'"
    by (simp add: setRoot_def)
qed

lemma getSubfield_get: "getSubfield k flds True = (k, snd (walk (Mapping (config k)) flds True))"
  using walk_get_fst [of "Mapping (config k)" flds]
  by (cases "walk (Mapping (config k)) flds True") (simp add: getSubfield_def setRoot_config)

lemma getFieldAsString_fst: "fst (getFieldAsString k flds) = k"
  by (simp add: getFieldAsString_def getSubfield_get
           split: outcome.splits sum.splits yaml.splits scalar.splits)

lemma getFieldAsString_no_panic: "snd (getFieldAsString k flds) \<noteq> Panic e"
  using walk_get_no_panic [of "Mapping (config k)" flds]
  by (simp add: getFieldAsString_def getSubfield_get
           split: outcome.splits sum.splits yaml.splits scalar.splits)

lemma getReservedCPU_cases:
  obtains err where "getReservedCPU k = (k, Return (Inl err))"
  | val where "getReservedCPU k = (k, Return (Inr val))"
proof -
  obtain out where out: "getReservedCPU k = (k, out)"
    using getFieldAsString_fst [of k "[kubeReservedField, cpuField]"]
    by (cases "getReservedCPU k") (simp add: getReservedCPU_def)
  have "out \<noteq> Panic e" for e
    using getFieldAsString_no_panic [of k "[kubeReservedField, cpuField]" e] out
    by (simp add: getReservedCPU_def)
  then show ?thesis using out that by (cases out; cases "case out of Return x \<Rightarrow> x") auto
qed

lemma getReservedCPU_yamlTemplate:
  "getReservedCPU (yamlTemplate cpu) = (yamlTemplate cpu, Return (Inr cpu))"
  by (simp add: getReservedCPU_def getFieldAsString_def getSubfield_def setRoot_def
        yamlTemplate_def kubeReservedField_def cpuField_def)

lemma getReservedCPU_emptyDocument:
  "getReservedCPU emptyDocument
     = (emptyDocument, Return (Inl (FieldDoesNotExist ''kubeReserved'' (Some []))))"
  by (simp add: getReservedCPU_def getFieldAsString_def getSubfield_def setRoot_def
        emptyDocument_def kubeReservedField_def cpuField_def)

text \<open>
  C7. Reads never mutate the document: \<^verbatim>\<open>getSubfield\<close> in its get mode and
  \<^verbatim>\<open>getFieldAsString\<close> leave the tree as it was for every document and path, no
  missing node is created, and \<^verbatim>\<open>computeReservedCPU\<close> leaves the tree as it was for
  every document and CPU count.
\<close>

theorem reads_do_not_mutate:
  "fst (getSubfield k flds True) = k \<and> fst (getFieldAsString k flds) = k
   \<and> fst (computeReservedCPU k cpus) = k"
proof (intro conjI)
  show "fst (getSubfield k flds True) = k" by (simp add: getSubfield_get)
  show "fst (getFieldAsString k flds) = k" by (rule getFieldAsString_fst)
  show "fst (computeReservedCPU k cpus) = k"
    by (cases k rule: getReservedCPU_cases) (simp_all add: computeReservedCPU_def)
qed

section \<open>The formula\<close>


lemma sprintfMilli_examples:
  "sprintfMilli 110 = ''110m''" "sprintfMilli 90 = ''90m''" "sprintfMilli 150 = ''150m''"
  "sprintfMilli 230 = ''230m''" "sprintfMilli 0 = ''0m''" "sprintfMilli 82 = ''82m''"
  "sprintfMilli 75 = ''75m''" "sprintfMilli 60 = ''60m''"
  by (simp_all add: sprintfMilli_def natDigits.simps digitChar_def)



section \<open>The special case\<close>


text \<open>
  C2. For every document whose \<^verbatim>\<open>kubeReserved.cpu\<close> resolves to the string
  \<open>1060m\<close> and every CPU count of at most 2, \<^verbatim>\<open>computeReservedCPU\<close> returns
  \<open>1060m\<close> unchanged and no error; and when the count is at most 2 and the read of
  the field fails, it returns the error of the read.
\<close>

theorem computeReservedCPU_special_case:
  "(cpus \<le> 2 \<and> snd (getReservedCPU k) = Return (Inr ''1060m'')
      \<longrightarrow> computeReservedCPU k cpus = (k, Return (Inr ''1060m'')))
   \<and> (cpus \<le> 2 \<and> snd (getReservedCPU k) = Return (Inl err)
      \<longrightarrow> computeReservedCPU k cpus = (k, Return (Inl err)))"
  by (cases k rule: getReservedCPU_cases)
     (auto simp: computeReservedCPU_def gkeCustomReservedCPU_def)

text \<open>
  The document of \<^verbatim>\<open>specialYAML\<close> with 2 cores, as the case \<^verbatim>\<open>e2-medium\<close> of
  \<^verbatim>\<open>TestComputeCPUs\<close>, and the empty document, whose read fails.
\<close>

theorem computeReservedCPU_special_case_witness:
  "(2::int) \<le> 2 \<and> snd (getReservedCPU specialYAML) = Return (Inr ''1060m'')
   \<and> computeReservedCPU specialYAML 2 = (specialYAML, Return (Inr ''1060m''))
   \<and> (-1::int) \<le> 2
   \<and> snd (getReservedCPU emptyDocument)
       = Return (Inl (FieldDoesNotExist ''kubeReserved'' (Some [])))
   \<and> computeReservedCPU emptyDocument (-1)
       = (emptyDocument, Return (Inl (FieldDoesNotExist ''kubeReserved'' (Some []))))"
proof -
  have s: "snd (getReservedCPU specialYAML) = Return (Inr ''1060m'')"
    by (simp add: specialYAML_def getReservedCPU_yamlTemplate gkeCustomReservedCPU_def)
  have e: "snd (getReservedCPU emptyDocument)
             = Return (Inl (FieldDoesNotExist ''kubeReserved'' (Some [])))"
    by (simp add: getReservedCPU_emptyDocument)
  show ?thesis
    using computeReservedCPU_special_case [of 2 specialYAML]
      computeReservedCPU_special_case
        [of "-1" emptyDocument "FieldDoesNotExist ''kubeReserved'' (Some [])"]
      s e
    by simp
qed

text \<open>
  C4, as stated: for every document, \<^verbatim>\<open>computeReservedCPU\<close> with no CPU returns
  \<open>0m\<close>. It does not: a count of 0 is at most 2, so the field is read first. On the
  document of \<^verbatim>\<open>specialYAML\<close> the result is \<open>1060m\<close>, and on the empty document it
  is the error of the read.
\<close>

theorem computeReservedCPU_zero_counterexample:
  "snd (computeReservedCPU specialYAML 0) = Return (Inr ''1060m'')
   \<and> snd (computeReservedCPU specialYAML 0) \<noteq> Return (Inr ''0m'')
   \<and> snd (computeReservedCPU emptyDocument 0) \<noteq> Return (Inr ''0m'')"
  by (simp add: computeReservedCPU_def specialYAML_def getReservedCPU_yamlTemplate
        getReservedCPU_emptyDocument gkeCustomReservedCPU_def)

text \<open>
  C4, amended: for every document whose \<^verbatim>\<open>kubeReserved.cpu\<close> resolves to a string
  other than \<open>1060m\<close>, \<^verbatim>\<open>computeReservedCPU\<close> with no CPU returns \<open>0m\<close>.
\<close>

theorem computeReservedCPU_zero:
  "snd (getReservedCPU k) = Return (Inr val) \<Longrightarrow> val \<noteq> gkeCustomReservedCPU \<Longrightarrow>
   computeReservedCPU k 0 = (k, Return (Inr ''0m''))"
  by (cases k rule: getReservedCPU_cases)
     (auto simp: computeReservedCPU_def gkeReservedCPU_formula reservedMilliSpec_def
        toInt64_def sprintfMilli_examples)

theorem computeReservedCPU_zero_witness:
  "snd (getReservedCPU basicYAML) = Return (Inr ''0m'') \<and> ''0m'' \<noteq> gkeCustomReservedCPU
   \<and> computeReservedCPU basicYAML 0 = (basicYAML, Return (Inr ''0m''))"
proof -
  have r: "snd (getReservedCPU basicYAML) = Return (Inr ''0m'')"
    by (simp add: basicYAML_def getReservedCPU_yamlTemplate)
  have n: "''0m'' \<noteq> gkeCustomReservedCPU" by (simp add: gkeCustomReservedCPU_def)
  show ?thesis using r n computeReservedCPU_zero [OF r n] by simp
qed





section \<open>Writes\<close>

text \<open>
  C5. On every document that binds \<^verbatim>\<open>kubeReserved\<close> to a value that is not a map,
  \<^verbatim>\<open>setReservedCPU\<close> returns a PathError and leaves the value in place. More
  generally, \<^verbatim>\<open>setField\<close> returns a PathError whenever a node at a proper prefix
  of the path is present and is not a map.
\<close>

theorem setField_not_a_map:
  "(config k = Some al \<and> map_of al (SStr kubeReservedField) = Some n \<and> \<not> isMapping n
      \<longrightarrow> setReservedCPU k reserved = (k, Return (Some (FieldNotInResult cpuField n)))
          \<and> isPathError (FieldNotInResult cpuField n))
   \<and> (post \<noteq> [] \<and> snd (getSubfield k pre True) = Return (Inr n) \<and> \<not> isMapping n
      \<longrightarrow> (\<exists>e. setField k (pre @ post) val = (k, Return (Some e)) \<and> isPathError e))"
proof (intro conjI impI)
  assume a: "config k = Some al \<and> map_of al (SStr kubeReservedField) = Some n \<and> \<not> isMapping n"
  then have "walk (Mapping (config k)) [kubeReservedField] False
               = (Mapping (config k), Return (Inr n))"
    by (simp add: AList.update_triv)
  then have "getSubfield k [kubeReservedField] False = (k, Return (Inr n))"
    by (simp add: getSubfield_def setRoot_config)
  with a show "setReservedCPU k reserved = (k, Return (Some (FieldNotInResult cpuField n)))"
    by (cases n) (simp_all add: setReservedCPU_def setField_def)
  show "isPathError (FieldNotInResult cpuField n)" by simp
next
  assume a: "post \<noteq> [] \<and> snd (getSubfield k pre True) = Return (Inr n) \<and> \<not> isMapping n"
  then have "walk (Mapping (config k)) pre True = (Mapping (config k), Return (Inr n))"
    using walk_get_fst [of "Mapping (config k)" pre]
    by (cases "walk (Mapping (config k)) pre True") (simp add: getSubfield_get)
  from walk_through_scalar [OF this, of "butlast post" False] a
  have "walk (Mapping (config k)) (butlast (pre @ post)) False
     = (Mapping (config k), if butlast post = [] then Return (Inr n)
          else Return (Inl (NotAMapOnField n (hd (butlast post)))))"
    by (simp add: butlast_append)
  then have g: "getSubfield k (butlast (pre @ post)) False
     = (k, if butlast post = [] then Return (Inr n)
          else Return (Inl (NotAMapOnField n (hd (butlast post)))))"
    by (simp add: getSubfield_def setRoot_config)
  show "\<exists>e. setField k (pre @ post) val = (k, Return (Some e)) \<and> isPathError e"
  proof (cases "butlast post = []")
    case True
    with g a have "setField k (pre @ post) val
        = (k, Return (Some (FieldNotInResult (last (pre @ post)) n)))"
      by (cases n) (simp_all add: setField_def)
    then show ?thesis by simp
  next
    case False
    with g a have "setField k (pre @ post) val
        = (k, Return (Some (FailedToSetField (NotAMapOnField n (hd (butlast post))))))"
      by (simp add: setField_def)
    then show ?thesis by simp
  qed
qed

text \<open>
  The case \<^verbatim>\<open>notAMap\<close> of \<^verbatim>\<open>TestGetSetFields\<close>, and a path that runs through the
  string at \<^verbatim>\<open>kubeReserved.cpu\<close> of \<^verbatim>\<open>basicYAML\<close>.
\<close>

theorem setField_not_a_map_witness:
  "config notAMap = Some [(SStr ''kubeReserved'', Scalar (SStr ''NotAMap''))]
   \<and> map_of [(SStr ''kubeReserved'', Scalar (SStr ''NotAMap''))] (SStr kubeReservedField)
       = Some (Scalar (SStr ''NotAMap''))
   \<and> \<not> isMapping (Scalar (SStr ''NotAMap''))
   \<and> setReservedCPU notAMap ''50m''
       = (notAMap, Return (Some (FieldNotInResult ''cpu'' (Scalar (SStr ''NotAMap'')))))
   \<and> [''limit'', ''soft''] \<noteq> []
   \<and> snd (getSubfield basicYAML [''kubeReserved'', ''cpu''] True)
       = Return (Inr (Scalar (SStr ''0m'')))
   \<and> (\<exists>e. setField basicYAML ([''kubeReserved'', ''cpu''] @ [''limit'', ''soft'']) ''50m''
             = (basicYAML, Return (Some e)) \<and> isPathError e)"
proof -
  have c: "config notAMap = Some [(SStr ''kubeReserved'', Scalar (SStr ''NotAMap''))]"
    by (simp add: notAMap_def)
  have m: "map_of [(SStr ''kubeReserved'', Scalar (SStr ''NotAMap''))] (SStr kubeReservedField)
       = Some (Scalar (SStr ''NotAMap''))"
    by (simp add: kubeReservedField_def)
  have g: "snd (getSubfield basicYAML [''kubeReserved'', ''cpu''] True)
       = Return (Inr (Scalar (SStr ''0m'')))"
    by (simp add: getSubfield_def basicYAML_def yamlTemplate_def)
  note p1 = setField_not_a_map [where k = notAMap
      and al = "[(SStr ''kubeReserved'', Scalar (SStr ''NotAMap''))]"
      and n = "Scalar (SStr ''NotAMap'')" and reserved = "''50m''"]
  note p2 = setField_not_a_map [where k = basicYAML and n = "Scalar (SStr ''0m'')"
      and pre = "[''kubeReserved'', ''cpu'']" and post = "[''limit'', ''soft'']"
      and val = "''50m''"]
  from p1 c m have "setReservedCPU notAMap ''50m''
       = (notAMap, Return (Some (FieldNotInResult ''cpu'' (Scalar (SStr ''NotAMap'')))))"
    by (simp add: cpuField_def)
  moreover from p2 g
  have "\<exists>e. setField basicYAML ([''kubeReserved'', ''cpu''] @ [''limit'', ''soft'']) ''50m''
             = (basicYAML, Return (Some e)) \<and> isPathError e"
    by simp
  ultimately show ?thesis using c m g by simp
qed




text \<open>
  C9. \<^verbatim>\<open>setField\<close> is atomic on error: whenever it returns an error, the document
  is as it was, with no map created on the way, since the walk meets a node that is not a
  map only before it has created any.
\<close>

theorem setField_atomic:
  "setField k flds val = (k', Return (Some e)) \<Longrightarrow> k' = k"
proof -
  assume a: "setField k flds val = (k', Return (Some e))"
  then have ne: "flds \<noteq> []" by (auto simp: setField_def)
  obtain root' out where w: "walk (Mapping (config k)) (butlast flds) False = (root', out)"
    by (cases "walk (Mapping (config k)) (butlast flds) False")
  note g = getSubfield_walk [OF w]
  have k': "k' = setRoot k root'" and nm: "\<forall>m. out \<noteq> Return (Inr (Mapping m))"
    using a ne g(1)
    by (auto simp: setField_def split: outcome.splits sum.splits yaml.splits option.splits)
  from walk_unchanged [OF w nm] have "root' = Mapping (config k)" .
  with k' show "k' = k" by (simp add: setRoot_config)
qed

theorem setField_atomic_witness:
  "setField basicYAML [''kubeReserved'', ''cpu'', ''limit'', ''soft''] ''50m''
     = (basicYAML, Return (Some (FailedToSetField
          (NotAMapOnField (Scalar (SStr ''0m'')) ''limit''))))"
proof -
  have "\<exists>k'. setField basicYAML [''kubeReserved'', ''cpu'', ''limit'', ''soft''] ''50m''
     = (k', Return (Some (FailedToSetField (NotAMapOnField (Scalar (SStr ''0m'')) ''limit''))))"
    by (simp add: setField_def getSubfield_def basicYAML_def yamlTemplate_def)
  then obtain k' where
    h: "setField basicYAML [''kubeReserved'', ''cpu'', ''limit'', ''soft''] ''50m''
     = (k', Return (Some (FailedToSetField (NotAMapOnField (Scalar (SStr ''0m'')) ''limit''))))"
    by blast
  from setField_atomic [OF h] h show ?thesis by simp
qed

section \<open>The trailing marker\<close>

text \<open>
  What \<^verbatim>\<open>getKubeconfig\<close> and \<^verbatim>\<open>unpack\<close> add to the YAML codec: the marker is
  cut off before the bytes are decoded and put back after the tree is encoded. Reading
  and writing back a file \<open>body @ kubeconfigSuffix\<close> yields what the codec makes of
  \<open>body\<close>, followed by the marker.
\<close>

lemma trimSuffix_append: "trimSuffix (body @ suffix) suffix = body"
  by (simp add: trimSuffix_def)

lemma unpack_getKubeconfig:
  assumes "unmarshal body (Some []) = (m, None)" and "marshal m = (body', err)"
  shows "unpack marshal (fst (getKubeconfig unmarshal (body @ kubeconfigSuffix)))
           = (body' @ kubeconfigSuffix, err)"
  using assms by (simp add: getKubeconfig_def unpack_def trimSuffix_append)

text \<open>
  The tree is all that \<^verbatim>\<open>unpack\<close> has of the file. If every file of a set is
  written back as it was read, then no two files of the set are decoded to the same
  tree.
\<close>

lemma round_trip_inj_on:
  assumes "\<forall>body \<in> docs.
             fst (unpack marshal (fst (getKubeconfig unmarshal (body @ kubeconfigSuffix))))
               = body @ kubeconfigSuffix"
  shows "inj_on (\<lambda>body. fst (unmarshal body (Some []))) docs"
proof (rule inj_onI)
  fix a b
  assume a: "a \<in> docs" and b: "b \<in> docs"
    and eq: "fst (unmarshal a (Some [])) = fst (unmarshal b (Some []))"
  have "fst (getKubeconfig unmarshal (a @ kubeconfigSuffix))
          = fst (getKubeconfig unmarshal (b @ kubeconfigSuffix))"
    using eq
    by (cases "unmarshal a (Some [])"; cases "unmarshal b (Some [])")
       (simp add: getKubeconfig_def trimSuffix_append)
  with assms a b have "a @ kubeconfigSuffix = b @ kubeconfigSuffix" by metis
  then show "a = b" by simp
qed

end
